theory Spec2Isabelle
  imports Complex_Main "HOL-Library.Char_ord" "HOL-Library.List_Lexorder" "HOL-Library.Multiset"
begin

section \<open>Python values used by the embedding\<close>

text \<open>
  A Python \<open>str\<close> is a \<open>string\<close>: a list of characters, each one a code point below
  256. Exceptions are values of \<open>py_error\<close>; a function that can raise returns
  \<open>py_error + 'a\<close> with \<open>Inl\<close> for the exception.
\<close>

datatype py_error =
  ZeroDivisionError | AttributeError | KeyError | IndexError | TypeError | DuplicateKeyError

text \<open>
  \<open>str.isspace\<close> on one character, which is also what \<open>\s\<close> matches in a \<open>str\<close>
  pattern: the code points 9 to 13, 28 to 32, 133 and 160.
\<close>

definition isspace :: "char \<Rightarrow> bool" where
  "isspace c = (of_char c \<in> {9, 10, 11, 12, 13, 28, 29, 30, 31, 32, 133, 160 :: nat})"

text \<open>\<open>str.strip()\<close>: whitespace removed at both ends.\<close>

definition strip :: "string \<Rightarrow> string" where
  "strip s = dropWhile isspace (rev (dropWhile isspace (rev s)))"

text \<open>\<open>sep.join(xs)\<close>.\<close>

fun str_join :: "string \<Rightarrow> string list \<Rightarrow> string" where
  "str_join sep [] = []"
| "str_join sep [x] = x"
| "str_join sep (x # y # ys) = x @ sep @ str_join sep (y # ys)"

section \<open>The chunker (\<open>pubmed_ingestor.py\<close>, \<open>PubMedIngestor._chunk_text\<close>)\<close>

text \<open>The character class \<open>[.!?]\<close> of the look-behind.\<close>

definition is_sentence_end :: "char \<Rightarrow> bool" where
  "is_sentence_end c = (c = CHR ''.'' \<or> c = CHR ''!'' \<or> c = CHR ''?'')"

text \<open>
  \<open>re.split(r'(?<=[.!?])\s+', text)\<close>. A match is a maximal run of whitespace whose
  preceding character is one of \<open>. ! ?\<close>; the pieces between the matches are returned, so
  the result always has at least one element, and a text that ends in such a run has the
  empty string as its last piece. \<open>cur\<close> is the piece read so far.
\<close>

function re_split_from :: "string \<Rightarrow> string \<Rightarrow> string list" where
  "re_split_from cur [] = [cur]"
| "re_split_from cur [c] = [cur @ [c]]"
| "re_split_from cur (c # d # cs) =
     (if is_sentence_end c \<and> isspace d
      then (cur @ [c]) # re_split_from [] (dropWhile isspace cs)
      else re_split_from (cur @ [c]) (d # cs))"
  by pat_completeness auto
termination
  by (relation "measure (\<lambda>(cur, rest). length rest)")
     (auto simp: length_dropWhile_le le_SucI less_Suc_eq_le)

definition re_split :: "string \<Rightarrow> string list" where
  "re_split text = re_split_from [] text"

text \<open>
  The loop of \<open>_chunk_text\<close>. \<open>n\<close> is \<open>len(sentences)\<close>, \<open>i\<close> the index of \<open>enumerate\<close>,
  and the remaining sentences are the fourth argument. \<open>(i + 1) % chunk_size_sentences\<close>
  raises \<open>ZeroDivisionError\<close> when the size is zero; Python's \<open>%\<close> on integers takes the
  sign of the divisor, as \<open>mod\<close> on \<open>int\<close> does.
\<close>

fun chunk_loop :: "int \<Rightarrow> nat \<Rightarrow> nat \<Rightarrow> string list \<Rightarrow> string list \<Rightarrow> string list
    \<Rightarrow> py_error + string list" where
  "chunk_loop W n i [] current_chunk chunks = Inr chunks"
| "chunk_loop W n i (sentence # rest) current_chunk chunks =
     (let current_chunk = current_chunk @ [strip sentence] in
      if W = 0 then Inl ZeroDivisionError
      else if (int i + 1) mod W = 0 \<or> int i = int n - 1
      then chunk_loop W n (i + 1) rest []
             (if current_chunk \<noteq> [] then chunks @ [str_join '' '' current_chunk] else chunks)
      else chunk_loop W n (i + 1) rest current_chunk chunks)"

definition chunk_text :: "string \<Rightarrow> int \<Rightarrow> py_error + string list" where
  "chunk_text text chunk_size_sentences =
     (if text = [] then Inr []
      else let sentences = re_split text
           in chunk_loop chunk_size_sentences (length sentences) 0 sentences [] [])"

text \<open>
  The specification's sentences, written from its words: the text is cut at every
  boundary (one of \<open>. ! ?\<close> followed by whitespace), and the pieces that hold something
  besides whitespace are its sentences. The empty text and a text of whitespace alone
  have none.
\<close>

definition spec_sentences :: "string \<Rightarrow> string list" where
  "spec_sentences text = filter (\<lambda>s. s \<noteq> []) (map strip (re_split text))"

text \<open>
  The specification's grouping, written from its words: consecutive windows of \<open>W\<close>
  elements, the last one holding the remainder.
\<close>

function windows :: "nat \<Rightarrow> 'a list \<Rightarrow> 'a list list" where
  "windows W xs = (if W = 0 \<or> xs = [] then [] else take W xs # windows W (drop W xs))"
  by pat_completeness auto
termination
  by (relation "measure (\<lambda>(W, xs). length xs)") auto

declare windows.simps [simp del]

section \<open>The metadata store (\<open>mongodb_handler.py\<close>, \<open>MongoDBHandler\<close>)\<close>

text \<open>
  \<open>article_data\<close> is the dictionary handed to \<open>insert_article\<close>. A field is \<open>None\<close> when
  the key is missing (for \<open>publication_date\<close> also when its value is Python's \<open>None\<close>).
  A stored document always has its \<open>_id\<close>; the identifiers are strings, so \<open>str\<close> of one
  is the identifier itself.
\<close>

record article_data =
  data_id :: "string option"
  data_title :: "string option"
  data_abstract :: "string option"
  data_authors :: "string list option"
  data_publication_date :: "string option"
  data_source :: "string option"

record document =
  doc_id :: string
  doc_title :: "string option"
  doc_abstract :: "string option"
  doc_authors :: "string list option"
  doc_publication_date :: "string option"
  doc_source :: "string option"

text \<open>
  The handler: \<open>articles_collection\<close> is \<open>None\<close> until \<open>connect\<close> succeeds, then the
  collection, a list of documents in insertion order.
\<close>

record mongo_handler =
  articles_collection :: "document list option"

definition to_document :: "string \<Rightarrow> article_data \<Rightarrow> document" where
  "to_document i a =
     \<lparr>doc_id = i, doc_title = data_title a, doc_abstract = data_abstract a,
      doc_authors = data_authors a, doc_publication_date = data_publication_date a,
      doc_source = data_source a\<rparr>"

text \<open>\<open>collection.find_one({'_id': i})\<close>.\<close>

definition find_one :: "document list \<Rightarrow> string \<Rightarrow> document option" where
  "find_one coll i = find (\<lambda>d. doc_id d = i) coll"

text \<open>
  \<open>collection.insert_one(doc)\<close>: the store refuses a second document with the same
  \<open>_id\<close> by raising \<open>DuplicateKeyError\<close>.
\<close>

definition insert_one :: "document list \<Rightarrow> document \<Rightarrow> py_error + document list" where
  "insert_one coll d =
     (if doc_id d \<in> set (map doc_id coll) then Inl DuplicateKeyError else Inr (coll @ [d]))"

text \<open>
  \<open>insert_article\<close> returns the identifier, or \<open>None\<close> after logging an error, together
  with the handler after the call. A document that \<open>find_one\<close> returns is a dictionary
  with an \<open>_id\<close>, hence true in \<open>if existing_article\<close>. The store answers every call; the
  only exception it raises is the duplicate key, caught by \<open>except Exception\<close>.
\<close>

definition insert_article :: "mongo_handler \<Rightarrow> article_data \<Rightarrow> string option \<times> mongo_handler" where
  "insert_article h a =
     (case articles_collection h of
        None \<Rightarrow> (None, h)
      | Some coll \<Rightarrow>
          (case data_id a of
             None \<Rightarrow> (None, h)
           | Some i \<Rightarrow>
               (case find_one coll i of
                  Some existing_article \<Rightarrow> (Some i, h)
                | None \<Rightarrow>
                    (case insert_one coll (to_document i a) of
                       Inl e \<Rightarrow> (None, h)
                     | Inr coll' \<Rightarrow> (Some i, h\<lparr>articles_collection := Some coll'\<rparr>)))))"

section \<open>The co-authorship graph (\<open>MongoDBHandler.get_author_network_data\<close>)\<close>

record author_node =
  node_id :: string
  node_name :: string
  node_type :: string

record article_ref =
  ref_pmid :: string
  ref_title :: string

record coauthor_link =
  link_source :: string
  link_target :: string
  link_articles :: "article_ref list"

text \<open>The returned dictionary \<open>{"nodes": node_list, "links": link_list}\<close>.\<close>

record network_data =
  node_list :: "author_node list"
  link_list :: "coauthor_link list"

text \<open>
  A Python \<open>dict\<close> keeps its keys in insertion order: an association list with one
  entry per key. \<open>dict_set\<close> is \<open>d[k] = v\<close>: it replaces the value of a key that is
  present, in place, and appends a new key at the end.
\<close>

fun dict_set :: "'k \<Rightarrow> 'v \<Rightarrow> ('k \<times> 'v) list \<Rightarrow> ('k \<times> 'v) list" where
  "dict_set k v [] = [(k, v)]"
| "dict_set k v (p # d) = (if fst p = k then (k, v) # d else p # dict_set k v d)"

text \<open>\<open>itertools.combinations(xs, 2)\<close>: the pairs of two positions, the first one earlier.\<close>

fun combinations2 :: "'a list \<Rightarrow> ('a \<times> 'a) list" where
  "combinations2 [] = []"
| "combinations2 (x # xs) = map (Pair x) xs @ combinations2 xs"

text \<open>The loop over the authors of one article that fills \<open>nodes\<close>.\<close>

definition add_author_node :: "(string \<times> author_node) list \<Rightarrow> string \<Rightarrow> (string \<times> author_node) list" where
  "add_author_node nodes author_name =
     (if map_of nodes author_name = None
      then dict_set author_name
             \<lparr>node_id = author_name, node_name = author_name, node_type = ''author''\<rparr> nodes
      else nodes)"

text \<open>
  The body of the loop over the pairs: the key is \<open>f"{author1}--{author2}"\<close>, the link is
  created when the key is new, and the article is appended to the link found under the
  key.
\<close>

definition add_link_article ::
  "string \<Rightarrow> string \<Rightarrow> (string \<times> coauthor_link) list \<Rightarrow> string \<times> string
     \<Rightarrow> (string \<times> coauthor_link) list" where
  "add_link_article article_pmid article_title links pair =
     (let author1 = fst pair; author2 = snd pair;
          link_key = author1 @ ''--'' @ author2;
          links = (if map_of links link_key = None
                   then dict_set link_key
                          \<lparr>link_source = author1, link_target = author2, link_articles = []\<rparr> links
                   else links)
      in case map_of links link_key of
           None \<Rightarrow> links
         | Some l \<Rightarrow>
             dict_set link_key
               (l\<lparr>link_articles := link_articles l
                    @ [\<lparr>ref_pmid = article_pmid, ref_title = article_title\<rparr>]\<rparr>) links)"

text \<open>
  The body of the loop over the articles, on the pair of the two dictionaries.
  \<open>sorted\<close> orders strings lexicographically by code point.
\<close>

definition add_article ::
  "(string \<times> author_node) list \<times> (string \<times> coauthor_link) list \<Rightarrow> document
     \<Rightarrow> (string \<times> author_node) list \<times> (string \<times> coauthor_link) list" where
  "add_article acc article =
     (let article_pmid = doc_id article;
          article_title = (case doc_title article of None \<Rightarrow> ''No Title'' | Some t \<Rightarrow> t);
          authors = (case doc_authors article of None \<Rightarrow> [] | Some au \<Rightarrow> au);
          nodes = foldl add_author_node (fst acc) authors;
          links = (if length authors > 1
                   then foldl (add_link_article article_pmid article_title) (snd acc)
                          (combinations2 (sort authors))
                   else snd acc)
      in (nodes, links))"

text \<open>
  \<open>collection.find(query_filter, projection)\<close>: every document when the filter is \<open>{}\<close>,
  those whose \<open>_id\<close> is in the list under \<open>{"_id": {"$in": article_pmids}}\<close>. The filter is
  set only when \<open>article_pmids\<close> is true, which \<open>None\<close> and the empty list are not.
\<close>

definition find_articles :: "document list \<Rightarrow> string list option \<Rightarrow> document list" where
  "find_articles coll article_pmids =
     (case article_pmids of
        None \<Rightarrow> coll
      | Some pmids \<Rightarrow> if pmids = [] then coll else filter (\<lambda>d. doc_id d \<in> set pmids) coll)"

definition get_author_network_data :: "mongo_handler \<Rightarrow> string list option \<Rightarrow> network_data" where
  "get_author_network_data h article_pmids =
     (case articles_collection h of
        None \<Rightarrow> \<lparr>node_list = [], link_list = []\<rparr>
      | Some coll \<Rightarrow>
          (let acc = foldl add_article ([], []) (find_articles coll article_pmids)
           in \<lparr>node_list = map snd (fst acc), link_list = map snd (snd acc)\<rparr>))"

text \<open>
  The invariant of the links dictionary when no article repeats a name: every link runs
  from a name to a strictly greater one.
\<close>

definition proper_links :: "(string \<times> coauthor_link) list \<Rightarrow> bool" where
  "proper_links ls = list_all (\<lambda>p. link_source (snd p) < link_target (snd p)) ls"

section \<open>The vector store (\<open>chromadb_handler.py\<close>, \<open>ChromaDBHandler\<close>)\<close>

text \<open>The metadata dictionary that the ingestion attaches to a chunk.\<close>

record chunk_metadata =
  meta_article_id :: string
  meta_chunk_index :: nat
  meta_source :: string
  meta_title :: string

text \<open>One row of the collection: identifier, document, metadata and embedding.\<close>

record 'e chunk_row =
  row_id :: string
  row_document :: string
  row_metadata :: chunk_metadata
  row_embedding :: 'e

text \<open>
  The handler: \<open>collection\<close> and \<open>model\<close> are \<open>None\<close> until \<open>connect\<close> succeeds. The
  embedding model is a black box: \<open>model.encode(texts).tolist()\<close> is a function that
  returns the vectors, or \<open>None\<close> when it raises. \<open>encode_calls\<close> counts the calls made to
  it; it is not a field of the class, it records the effect.
\<close>

record 'e chroma_handler =
  collection :: "'e chunk_row list option"
  model :: "(string list \<Rightarrow> 'e list option) option"
  encode_calls :: nat

text \<open>
  \<open>_generate_embeddings\<close>: the empty list when the model is missing or \<open>encode\<close> raises.
\<close>

definition generate_embeddings :: "'e chroma_handler \<Rightarrow> string list \<Rightarrow> 'e list \<times> 'e chroma_handler" where
  "generate_embeddings h texts =
     (case model h of
        None \<Rightarrow> ([], h)
      | Some encode \<Rightarrow>
          (case encode texts of
             None \<Rightarrow> ([], h\<lparr>encode_calls := encode_calls h + 1\<rparr>)
           | Some embeddings \<Rightarrow> (embeddings, h\<lparr>encode_calls := encode_calls h + 1\<rparr>)))"

text \<open>
  \<open>add_chunks\<close>. \<open>collection_add\<close> stands for the store's \<open>collection.add\<close>: given the
  collection and the new rows it returns the collection after the write, or \<open>None\<close> when
  it raises. The rows are built position by position from the four lists.
\<close>

definition make_rows :: "string list \<Rightarrow> string list \<Rightarrow> chunk_metadata list \<Rightarrow> 'e list \<Rightarrow> 'e chunk_row list" where
  "make_rows ids texts metadatas embeddings =
     map (\<lambda>(i, t, m, e). \<lparr>row_id = i, row_document = t, row_metadata = m, row_embedding = e\<rparr>)
       (zip ids (zip texts (zip metadatas embeddings)))"

definition add_chunks ::
  "('e chunk_row list \<Rightarrow> 'e chunk_row list \<Rightarrow> 'e chunk_row list option) \<Rightarrow> 'e chroma_handler
     \<Rightarrow> string list \<Rightarrow> chunk_metadata list \<Rightarrow> string list \<Rightarrow> bool \<times> 'e chroma_handler" where
  "add_chunks collection_add h texts metadatas ids =
     (case collection h of
        None \<Rightarrow> (False, h)
      | Some coll \<Rightarrow>
          (case model h of
             None \<Rightarrow> (False, h)
           | Some encode \<Rightarrow>
               if \<not> (length texts = length metadatas \<and> length metadatas = length ids)
               then (False, h)
               else
                 (let r = generate_embeddings h texts; embeddings = fst r; h1 = snd r
                  in if embeddings = [] then (False, h1)
                     else (case collection_add coll (make_rows ids texts metadatas embeddings) of
                             None \<Rightarrow> (False, h1)
                           | Some coll' \<Rightarrow> (True, h1\<lparr>collection := Some coll'\<rparr>)))))"

section \<open>The ingestion pipeline (\<open>PubMedIngestor.fetch_and_ingest\<close>)\<close>

text \<open>A record of \<open>Medline.parse\<close>: the fields the pipeline reads, \<open>None\<close> when missing.\<close>

record medline_record =
  PMID :: "string option"
  TI :: "string option"
  AB :: "string option"
  AU :: "string list option"
  DP :: "string option"

text \<open>\<open>str(j)\<close> of a natural number, as the f-string \<open>f"{pmid}_chunk_{j}"\<close> renders it.\<close>

definition digit_char :: "nat \<Rightarrow> char" where
  "digit_char d = char_of (48 + d)"

function str_nat :: "nat \<Rightarrow> string" where
  "str_nat n = (if n < 10 then [digit_char n] else str_nat (n div 10) @ [digit_char (n mod 10)])"
  by pat_completeness auto
termination
  by (relation "measure id") auto

declare str_nat.simps [simp del]

text \<open>The four lists that the loop over the records fills.\<close>

record ingest_lists =
  articles_to_mongo :: "article_data list"
  chunks_to_chroma_texts :: "string list"
  chunks_to_chroma_metadatas :: "chunk_metadata list"
  chunks_to_chroma_ids :: "string list"

text \<open>
  The inner loop \<open>for j, chunk in enumerate(chunks)\<close>; the third argument is \<open>j\<close>.
\<close>

fun append_chunks :: "string \<Rightarrow> string \<Rightarrow> nat \<Rightarrow> string list \<Rightarrow> ingest_lists \<Rightarrow> ingest_lists" where
  "append_chunks pmid title_str j [] st = st"
| "append_chunks pmid title_str j (chunk # rest) st =
     append_chunks pmid title_str (j + 1) rest
       (st\<lparr>chunks_to_chroma_texts := chunks_to_chroma_texts st @ [chunk],
           chunks_to_chroma_metadatas := chunks_to_chroma_metadatas st
             @ [\<lparr>meta_article_id = pmid, meta_chunk_index = j, meta_source = ''abstract'',
                 meta_title = title_str\<rparr>],
           chunks_to_chroma_ids := chunks_to_chroma_ids st @ [pmid @ ''_chunk_'' @ str_nat j]\<rparr>)"

text \<open>
  The body of the loop over the records. The normalisation of the publication date (three
  \<open>re.match\<close> patterns and \<open>datetime.strptime\<close>, with \<open>None\<close> as the fallback) is the
  parameter \<open>parse_date\<close>. A record whose \<open>PMID\<close> is missing or empty is skipped. The
  abstract is chunked with the default size 3; an exception there would leave the loop.
\<close>

definition process_record ::
  "(string \<Rightarrow> string option) \<Rightarrow> ingest_lists \<Rightarrow> medline_record \<Rightarrow> py_error + ingest_lists" where
  "process_record parse_date st record =
     (let title_str = (case TI record of None \<Rightarrow> ''No Title Available'' | Some t \<Rightarrow> t);
          abstract = (case AB record of None \<Rightarrow> ''No Abstract Available'' | Some a \<Rightarrow> a);
          authors = (case AU record of None \<Rightarrow> [] | Some au \<Rightarrow> au);
          publication_date =
            (case DP record of None \<Rightarrow> None
             | Some pub_date_raw \<Rightarrow> if pub_date_raw = [] then None else parse_date pub_date_raw)
      in case PMID record of
           None \<Rightarrow> Inr st
         | Some pmid \<Rightarrow>
             if pmid = [] then Inr st
             else
               (let article =
                      \<lparr>data_id = Some pmid, data_title = Some title_str,
                       data_abstract = Some abstract, data_authors = Some authors,
                       data_publication_date = publication_date, data_source = Some ''PubMed''\<rparr>;
                    st1 = st\<lparr>articles_to_mongo := articles_to_mongo st @ [article]\<rparr>
                in case chunk_text abstract 3 of
                     Inl e \<Rightarrow> Inl e
                   | Inr chunks \<Rightarrow> Inr (append_chunks pmid title_str 0 chunks st1)))"

fun process_records ::
  "(string \<Rightarrow> string option) \<Rightarrow> ingest_lists \<Rightarrow> medline_record list \<Rightarrow> py_error + ingest_lists" where
  "process_records parse_date st [] = Inr st"
| "process_records parse_date st (record # rest) =
     (case process_record parse_date st record of
        Inl e \<Rightarrow> Inl e
      | Inr st' \<Rightarrow> process_records parse_date st' rest)"

text \<open>The three chunk lists are filled in step: they have the same length.\<close>

definition aligned :: "ingest_lists \<Rightarrow> bool" where
  "aligned st =
     (length (chunks_to_chroma_texts st) = length (chunks_to_chroma_metadatas st)
      \<and> length (chunks_to_chroma_metadatas st) = length (chunks_to_chroma_ids st))"

text \<open>
  What a caller could receive: Python's \<open>None\<close>, or the counts the specification speaks
  of.
\<close>

record ingest_counts =
  processed :: nat
  ingested :: nat
  skipped :: nat

text \<open>
  \<open>fetch_and_ingest\<close>, from the answer of the bibliographic source on: \<open>source\<close> is
  \<open>None\<close> when \<open>Entrez\<close> or the parser raises, otherwise the identifier list of
  \<open>esearch\<close> and the records of \<open>efetch\<close>. The result is the returned value, or the
  exception that leaves the function, and the two handlers after the run.

  An exception raised in the \<open>try\<close> block reaches \<open>except Entrez.RequestError\<close> first.
  \<open>Bio.Entrez\<close> has no attribute \<open>RequestError\<close>, so evaluating that clause raises
  \<open>AttributeError\<close>, and the function is left with this exception before any write. The
  two writes catch their own exceptions. A run that raises nothing ends in a bare
  \<open>return\<close> (no identifier found) or at the end of the body.
\<close>

definition fetch_and_ingest ::
  "('e chunk_row list \<Rightarrow> 'e chunk_row list \<Rightarrow> 'e chunk_row list option)
     \<Rightarrow> (string \<Rightarrow> string option) \<Rightarrow> (string list \<times> medline_record list) option
     \<Rightarrow> mongo_handler \<Rightarrow> 'e chroma_handler
     \<Rightarrow> (py_error + ingest_counts option) \<times> mongo_handler \<times> 'e chroma_handler" where
  "fetch_and_ingest collection_add parse_date source mongo chroma =
     (case source of
        None \<Rightarrow> (Inl AttributeError, mongo, chroma)
      | Some (id_list, records) \<Rightarrow>
          if id_list = [] then (Inr None, mongo, chroma)
          else
            (case process_records parse_date
                    \<lparr>articles_to_mongo = [], chunks_to_chroma_texts = [],
                     chunks_to_chroma_metadatas = [], chunks_to_chroma_ids = []\<rparr> records of
               Inl e \<Rightarrow> (Inl AttributeError, mongo, chroma)
             | Inr st \<Rightarrow>
                 (let mongo' = foldl (\<lambda>h article. snd (insert_article h article)) mongo
                                 (articles_to_mongo st);
                      chroma' =
                        (if chunks_to_chroma_texts st \<noteq> []
                         then snd (add_chunks collection_add chroma (chunks_to_chroma_texts st)
                                     (chunks_to_chroma_metadatas st) (chunks_to_chroma_ids st))
                         else chroma)
                  in (Inr None, mongo', chroma'))))"

section \<open>The answer of the generation service (\<open>main.py\<close>, \<open>ask_question\<close>)\<close>

text \<open>
  The value of \<open>response.json()\<close>. Of a number only whether it is zero is ever looked
  at, so an integer stands for it; a dictionary is the list of its keys and values.
\<close>

datatype json =
  JNull | JBool bool | JNum int | JStr string | JArr "json list" | JObj "(string \<times> json) list"

text \<open>Python's truth value of such a value.\<close>

fun truthy :: "json \<Rightarrow> bool" where
  "truthy JNull = False"
| "truthy (JBool b) = b"
| "truthy (JNum n) = (n \<noteq> 0)"
| "truthy (JStr s) = (s \<noteq> [])"
| "truthy (JArr xs) = (xs \<noteq> [])"
| "truthy (JObj kvs) = (kvs \<noteq> [])"

text \<open>
  \<open>x.get(key, default)\<close>: only a dictionary has the method. \<open>x.get(key)\<close> is the case
  where the default is \<open>None\<close>.
\<close>

fun py_get :: "json \<Rightarrow> string \<Rightarrow> json \<Rightarrow> py_error + json" where
  "py_get (JObj kvs) key dflt = Inr (case map_of kvs key of None \<Rightarrow> dflt | Some v \<Rightarrow> v)"
| "py_get x key dflt = Inl AttributeError"

text \<open>\<open>x[key]\<close> with a string key.\<close>

fun py_item :: "json \<Rightarrow> string \<Rightarrow> py_error + json" where
  "py_item (JObj kvs) key = (case map_of kvs key of None \<Rightarrow> Inl KeyError | Some v \<Rightarrow> Inr v)"
| "py_item x key = Inl TypeError"

text \<open>
  \<open>x[0]\<close>: the first element of a list, the first character of a string, \<open>KeyError\<close>
  on a dictionary (its keys are strings), \<open>TypeError\<close> on the rest.
\<close>

fun py_first :: "json \<Rightarrow> py_error + json" where
  "py_first (JArr []) = Inl IndexError"
| "py_first (JArr (x # xs)) = Inr x"
| "py_first (JStr []) = Inl IndexError"
| "py_first (JStr (c # cs)) = Inr (JStr [c])"
| "py_first (JObj kvs) = Inl KeyError"
| "py_first x = Inl TypeError"

definition fallback_answer :: json where
  "fallback_answer = JStr ''Could not generate an answer.''"

text \<open>
  The parsing step of \<open>ask_question\<close>, lines 221 to 227: the value bound to
  \<open>generated_answer\<close>, or the exception that leaves the step (the enclosing \<open>except\<close>
  turns it into an HTTP 500 response). \<open>and\<close> evaluates its right operand only when the
  left one is true.
\<close>

definition generated_answer :: "json \<Rightarrow> py_error + json" where
  "generated_answer llm_result =
     (if \<not> truthy llm_result then Inr fallback_answer
      else
        (case py_get llm_result ''candidates'' JNull of
           Inl e \<Rightarrow> Inl e
         | Inr c \<Rightarrow>
             (if \<not> truthy c then Inr fallback_answer
              else
                (case py_item llm_result ''candidates'' of
                   Inl e \<Rightarrow> Inl e
                 | Inr candidates \<Rightarrow>
                     (case py_first candidates of
                        Inl e \<Rightarrow> Inl e
                      | Inr first_candidate \<Rightarrow>
                          (case py_get first_candidate ''content'' JNull of
                             Inl e \<Rightarrow> Inl e
                           | Inr c1 \<Rightarrow>
                               (if \<not> truthy c1 then Inr fallback_answer
                                else
                                  (case py_item first_candidate ''content'' of
                                     Inl e \<Rightarrow> Inl e
                                   | Inr content \<Rightarrow>
                                       (case py_get content ''parts'' JNull of
                                          Inl e \<Rightarrow> Inl e
                                        | Inr p \<Rightarrow>
                                            (if \<not> truthy p then Inr fallback_answer
                                             else
                                               (case py_item content ''parts'' of
                                                  Inl e \<Rightarrow> Inl e
                                                | Inr parts \<Rightarrow>
                                                    (case py_first parts of
                                                       Inl e \<Rightarrow> Inl e
                                                     | Inr part \<Rightarrow>
                                                         py_get part ''text''
                                                           fallback_answer))))))))))))"

section \<open>Properties of the chunker\<close>

lemma windows_Nil [simp]: "windows W [] = []"
  by (simp add: windows.simps)

lemma windows_step:
  "0 < W \<Longrightarrow> xs \<noteq> [] \<Longrightarrow> windows W xs = take W xs # windows W (drop W xs)"
  by (subst windows.simps) simp

lemma windows_short: "0 < W \<Longrightarrow> xs \<noteq> [] \<Longrightarrow> length xs \<le> W \<Longrightarrow> windows W xs = [xs]"
  by (simp add: windows_step)

lemma windows_full: "0 < W \<Longrightarrow> length xs = W \<Longrightarrow> windows W (xs @ ys) = xs # windows W ys"
  by (subst windows.simps) auto

lemma windows_eq_Nil: "0 < W \<Longrightarrow> windows W xs = [] \<longleftrightarrow> xs = []"
  by (subst windows.simps) simp

lemma concat_windows: "0 < W \<Longrightarrow> concat (windows W xs) = xs"
proof (induction W xs rule: windows.induct)
  case (1 W xs)
  show ?case
  proof (cases "xs = []")
    case True
    then show ?thesis by simp
  next
    case False
    with 1 show ?thesis by (simp add: windows_step)
  qed
qed

lemma ceil_nat_aux:
  assumes "0 < (W::nat)"
  shows "(n + W - 1) div W = (if n mod W = 0 then n div W else Suc (n div W))"
proof -
  obtain q r where n: "n = q * W + r" and r: "r < W" and q: "q = n div W" and r': "r = n mod W"
    using assms by (metis div_mult_mod_eq mod_less_divisor)
  show ?thesis
  proof (cases "r = 0")
    case True
    have "(W - 1) div W = 0" using assms by simp
    then have "(q * W + (W - 1)) div W = q" using assms div_mult_self3[of W q "W - 1"] by simp
    moreover have "n + W - 1 = q * W + (W - 1)" using True n assms by simp
    ultimately show ?thesis using True r' q by simp
  next
    case False
    then have "n + W - 1 = (r - 1) + Suc q * W" using n by simp
    moreover have "((r - 1) + Suc q * W) div W = Suc q + (r - 1) div W"
      using assms by (intro div_mult_self1) simp
    moreover have "(r - 1) div W = 0" using r by simp
    ultimately show ?thesis using False r' q by simp
  qed
qed

lemma ceiling_div_nat:
  assumes "0 < (W::nat)"
  shows "int ((n + W - 1) div W) = \<lceil>real n / real W\<rceil>"
proof -
  have "\<lceil>real n / real W\<rceil> = \<lceil>real_of_int (int n) / real_of_int (int W)\<rceil>" by simp
  also have "\<dots> = - (- int n div int W)" by (rule ceiling_divide_eq_div)
  also have "\<dots> = (if int n mod int W = 0 then int n div int W else int n div int W + 1)"
    using assms by (simp add: zdiv_zminus1_eq_if)
  also have "\<dots> = int (if n mod W = 0 then n div W else Suc (n div W))"
    by (simp flip: of_nat_mod of_nat_div)
  finally show ?thesis using ceil_nat_aux[OF assms, of n] by simp
qed

lemma length_windows: "0 < W \<Longrightarrow> length (windows W xs) = (length xs + W - 1) div W"
proof (induction W xs rule: windows.induct)
  case (1 W xs)
  show ?case
  proof (cases "xs = []")
    case True
    with 1(2) show ?thesis by simp
  next
    case False
    note ne = this
    show ?thesis
    proof (cases "length xs \<le> W")
      case True
      from ne obtain k where k: "length xs = Suc k" by (cases xs) auto
      with True have "k div W = 0" by simp
      then have "(k + W) div W = 1" using 1(2) by (simp add: div_add_self2)
      with True ne 1(2) k show ?thesis by (simp add: windows_short)
    next
      case False
      then have "length xs + W - 1 = (length xs - W + W - 1) + W" by simp
      then have "(length xs + W - 1) div W = Suc ((length xs - W + W - 1) div W)"
        using 1(2) by (metis div_add_self2 less_numeral_extra(3) Suc_eq_plus1)
      with 1 ne show ?thesis by (simp add: windows_step)
    qed
  qed
qed

lemma butlast_windows: "0 < W \<Longrightarrow> g \<in> set (butlast (windows W xs)) \<Longrightarrow> length g = W"
proof (induction W xs rule: windows.induct)
  case (1 W xs)
  show ?case
  proof (cases "xs = []")
    case True
    with 1(3) show ?thesis by simp
  next
    case False
    note ne = this
    show ?thesis
    proof (cases "drop W xs = []")
      case True
      with 1(2,3) ne show ?thesis by (simp add: windows_step)
    next
      case False
      then have "windows W (drop W xs) \<noteq> []" using 1(2) by (simp add: windows_eq_Nil)
      with 1 ne False show ?thesis by (auto simp: windows_step)
    qed
  qed
qed

lemma last_windows:
  "0 < W \<Longrightarrow> xs \<noteq> [] \<Longrightarrow>
     1 \<le> length (last (windows W xs)) \<and> length (last (windows W xs)) \<le> W"
proof (induction W xs rule: windows.induct)
  case (1 W xs)
  show ?case
  proof (cases "drop W xs = []")
    case True
    with 1(2,3) show ?thesis by (simp add: windows_step Suc_le_eq)
  next
    case False
    then have "windows W (drop W xs) \<noteq> []" using 1(2) by (simp add: windows_eq_Nil)
    with 1 False show ?thesis by (simp add: windows_step)
  qed
qed

text \<open>
  The loop invariant: at index \<open>i\<close> the open chunk holds \<open>i mod W\<close> sentences, and what the
  loop still appends is the windows of the open chunk followed by the stripped rest.
\<close>

lemma chunk_loop_windows:
  assumes "0 < W" and "ss \<noteq> []" and "i + length ss = n" and "length cur = i mod W"
  shows "chunk_loop (int W) n i ss cur chunks =
         Inr (chunks @ map (str_join '' '') (windows W (cur @ map strip ss)))"
  using assms
proof (induction ss arbitrary: i cur chunks)
  case Nil
  then show ?case by simp
next
  case (Cons s rest)
  let ?cur = "cur @ [strip s]"
  have modW: "(int i + 1) mod int W = 0 \<longleftrightarrow> Suc i mod W = 0"
    by (metis of_nat_Suc of_nat_mod of_nat_eq_0_iff add.commute)
  have lt: "i mod W < W" using Cons.prems(1) by simp
  show ?case
  proof (cases "rest = []")
    case True
    then have last: "int i = int n - 1" using Cons.prems(3) by simp
    have "length ?cur \<le> W" using Cons.prems(4) lt by simp
    then have "windows W ?cur = [?cur]" using Cons.prems(1) by (simp add: windows_short)
    with True last Cons.prems(1) show ?thesis by simp
  next
    case False
    note rest_ne = this
    then have notlast: "int i \<noteq> int n - 1" using Cons.prems(3) by (cases rest) auto
    show ?thesis
    proof (cases "Suc i mod W = 0")
      case True
      then have "length ?cur = W" using Cons.prems(4) lt
        by (metis length_append_singleton mod_Suc nat.distinct(1))
      then have w: "windows W (?cur @ map strip rest) = ?cur # windows W (map strip rest)"
        using Cons.prems(1) by (rule windows_full[rotated])
      have "chunk_loop (int W) n (Suc i) rest [] (chunks @ [str_join '' '' ?cur]) =
            Inr ((chunks @ [str_join '' '' ?cur])
                 @ map (str_join '' '') (windows W ([] @ map strip rest)))"
        using Cons.prems rest_ne True by (intro Cons.IH) auto
      with True modW Cons.prems(1) w show ?thesis by simp
    next
      case False
      note F2 = this
      then have len: "length ?cur = Suc i mod W"
        using Cons.prems(4) by (auto simp: mod_Suc split: if_splits)
      have "chunk_loop (int W) n (Suc i) rest ?cur chunks =
            Inr (chunks @ map (str_join '' '') (windows W (?cur @ map strip rest)))"
        using Cons.prems rest_ne len by (intro Cons.IH) auto
      with F2 modW notlast Cons.prems(1) show ?thesis by simp
    qed
  qed
qed

lemma re_split_from_not_Nil: "re_split_from cur text \<noteq> []"
  by (induction cur "text" rule: re_split_from.induct) auto

text \<open>
  On a text that is not empty the chunks are the joined windows of the stripped pieces of
  \<open>re.split\<close>, blank pieces included; with a positive size the function raises nothing.
\<close>

lemma chunk_text_eq_windows:
  assumes "0 < W" and "text \<noteq> []"
  shows "chunk_text text (int W)
         = Inr (map (str_join '' '') (windows W (map strip (re_split text))))"
proof -
  have "re_split text \<noteq> []" by (simp add: re_split_def re_split_from_not_Nil)
  then have "chunk_loop (int W) (length (re_split text)) 0 (re_split text) [] [] =
             Inr ([] @ map (str_join '' '') (windows W ([] @ map strip (re_split text))))"
    using assms(1) by (intro chunk_loop_windows) auto
  with assms(2) show ?thesis by (simp add: chunk_text_def)
qed

lemma chunk_text_returns:
  assumes "0 < W"
  shows "\<exists>chunks. chunk_text text (int W) = Inr chunks"
proof (cases "text = []")
  case True
  then show ?thesis by (simp add: chunk_text_def)
next
  case False
  with chunk_text_eq_windows[OF assms] show ?thesis by simp
qed

text \<open>
  When no piece of the text is blank, the pieces are the sentences and the claim C2 holds
  as it is written: \<open>ceil(N / W)\<close> chunks, each the join of one window of sentences, every
  window but the last of \<open>W\<close> sentences and the last of 1 to \<open>W\<close>.
\<close>

lemma chunk_text_windows_without_blank_piece:
  assumes "1 \<le> W"
    and "[] \<notin> set (map strip (re_split text))"
    and "N = length (spec_sentences text)"
    and "groups = windows (nat W) (spec_sentences text)"
  shows "(\<exists>chunks. chunk_text text W = Inr chunks
            \<and> chunks = map (str_join '' '') groups
            \<and> int (length chunks) = \<lceil>real N / real_of_int W\<rceil>)
         \<and> concat groups = spec_sentences text
         \<and> (\<forall>g \<in> set (butlast groups). int (length g) = W)
         \<and> 1 \<le> length (last groups) \<and> int (length (last groups)) \<le> W"
proof -
  from assms(1) have pos: "0 < nat W" and W: "int (nat W) = W" by simp_all
  have ne: "text \<noteq> []"
  proof
    assume "text = []"
    then have "map strip (re_split text) = [[]]" by (simp add: re_split_def strip_def)
    with assms(2) show False by simp
  qed
  have sp: "spec_sentences text = map strip (re_split text)"
    using assms(2) unfolding spec_sentences_def by (intro filter_True) force
  have ct: "chunk_text text W = Inr (map (str_join '' '') groups)"
    using chunk_text_eq_windows[OF pos ne] W assms(4) sp by simp
  have "int (length groups) = \<lceil>real N / real (nat W)\<rceil>"
    using length_windows[OF pos, of "spec_sentences text"] ceiling_div_nat[OF pos, of N]
      assms(3,4) by simp
  moreover have "real (nat W) = real_of_int W" using assms(1) by simp
  ultimately have len: "int (length groups) = \<lceil>real N / real_of_int W\<rceil>" by simp
  have cc: "concat groups = spec_sentences text"
    using concat_windows[OF pos] assms(4) by simp
  have bl: "\<forall>g \<in> set (butlast groups). int (length g) = W"
    using butlast_windows[OF pos] assms(4) W by metis
  have "spec_sentences text \<noteq> []"
    using sp by (simp add: re_split_def re_split_from_not_Nil)
  from last_windows[OF pos this] assms(4) W
  have la: "1 \<le> length (last groups) \<and> int (length (last groups)) \<le> W" by auto
  from ct len cc bl la show ?thesis by simp
qed

lemma chunk_text_windows_example:
  "chunk_text ''A. B! C?  D. E'' 3 = Inr [''A. B! C?'', ''D. E'']
   \<and> spec_sentences ''A. B! C?  D. E'' = [''A.'', ''B!'', ''C?'', ''D.'', ''E'']
   \<and> windows 3 (spec_sentences ''A. B! C?  D. E'') = [[''A.'', ''B!'', ''C?''], [''D.'', ''E'']]
   \<and> \<lceil>real 5 / real_of_int 3\<rceil> = 2"
proof -
  have p: "map strip (re_split ''A. B! C?  D. E'') = [''A.'', ''B!'', ''C?'', ''D.'', ''E'']"
    by code_simp
  then have nb: "[] \<notin> set (map strip (re_split ''A. B! C?  D. E''))" by simp
  have s: "spec_sentences ''A. B! C?  D. E'' = [''A.'', ''B!'', ''C?'', ''D.'', ''E'']"
    using p by (simp add: spec_sentences_def)
  have w: "windows (nat 3) [''A.'', ''B!'', ''C?'', ''D.'', ''E'']
           = [[''A.'', ''B!'', ''C?''], [''D.'', ''E'']]"
    by code_simp
  have "(1::int) \<le> 3" by simp
  from chunk_text_windows_without_blank_piece[OF this nb, of 5
      "[[''A.'', ''B!'', ''C?''], [''D.'', ''E'']]"] s w
  show ?thesis by auto
qed

text \<open>
  C2. The text \<open>First. Second. \<close> (with a space at its end) has two sentences, so with
  the window size 2 the claim gives \<open>ceil(2 / 2) = 1\<close> chunk holding both.
  \<open>_chunk_text\<close> returns two chunks, and the last one holds no sentence: \<open>re.split\<close>
  yields a third, empty piece after the last boundary, and the loop makes a window of it.
\<close>

theorem chunk_count_with_trailing_blank:
  "spec_sentences ''First. Second. '' = [''First.'', ''Second.'']
   \<and> \<lceil>real 2 / real_of_int 2\<rceil> = 1
   \<and> chunk_text ''First. Second. '' 2 = Inr [''First. Second.'', '''']"
proof -
  have "spec_sentences ''First. Second. '' = [''First.'', ''Second.'']" by code_simp
  moreover have "chunk_text ''First. Second. '' 2 = Inr [''First. Second.'', '''']"
    by code_simp
  ultimately show ?thesis by simp
qed

text \<open>
  C3. \<open>_chunk_text\<close> on a text of three spaces returns one chunk, the empty string: the
  text is not empty, \<open>re.split\<close> returns it as its only piece, \<open>strip\<close> empties it, and the
  test \<open>if current_chunk\<close> looks at the list of sentences, which then has one element. The
  same happens to the trailing piece of a text that ends in whitespace after a full
  window.
\<close>

theorem chunk_text_whitespace_only:
  "chunk_text ''   '' 3 = Inr ['''']
   \<and> chunk_text ''A. B. C. '' 3 = Inr [''A. B. C.'', '''']"
  by code_simp

section \<open>Properties of the metadata store\<close>

lemma find_one_None_iff: "find_one coll i = None \<longleftrightarrow> i \<notin> set (map doc_id coll)"
  by (auto simp: find_one_def find_None_iff)

lemma filter_id_absent: "i \<notin> set (map doc_id coll) \<Longrightarrow> filter (\<lambda>d. doc_id d = i) coll = []"
  by (induction coll) auto

lemma one_document_per_id:
  "distinct (map doc_id coll) \<Longrightarrow> i \<in> set (map doc_id coll)
     \<Longrightarrow> length (filter (\<lambda>d. doc_id d = i) coll) = 1"
proof (induction coll)
  case Nil
  then show ?case by simp
next
  case (Cons d coll)
  show ?case
  proof (cases "doc_id d = i")
    case True
    with Cons.prems(1) have "i \<notin> set (map doc_id coll)" by auto
    then have "filter (\<lambda>d. doc_id d = i) coll = []" by (rule filter_id_absent)
    with True show ?thesis by simp
  next
    case False
    with Cons show ?thesis by auto
  qed
qed

lemma find_one_append_new:
  "i \<notin> set (map doc_id coll) \<Longrightarrow> doc_id d = i \<Longrightarrow> find_one (coll @ [d]) i = Some d"
  by (induction coll) (auto simp: find_one_def)

text \<open>
  C1. On a connected handler whose collection holds each identifier at most once (the
  store's rule for \<open>_id\<close>), two calls of \<open>insert_article\<close> with articles of the same
  identifier \<open>i\<close> both return \<open>i\<close>; the second call leaves the handler as the first call
  left it; the collection then holds exactly one document with identifier \<open>i\<close>, and it
  is the document that was there before the first call or, when there was none, the
  content of the first call.
\<close>

theorem insert_article_twice:
  assumes conn: "articles_collection h = Some coll"
    and uniq: "distinct (map doc_id coll)"
    and ida: "data_id a = Some i"
    and idb: "data_id b = Some i"
    and first: "insert_article h a = (r1, h1)"
    and second: "insert_article h1 b = (r2, h2)"
  shows "r1 = Some i \<and> r2 = Some i \<and> h2 = h1
         \<and> (\<exists>coll1. articles_collection h1 = Some coll1
               \<and> distinct (map doc_id coll1)
               \<and> length (filter (\<lambda>d. doc_id d = i) coll1) = 1
               \<and> find_one coll1 i
                   = (case find_one coll i of
                        None \<Rightarrow> Some (to_document i a)
                      | Some d \<Rightarrow> Some d))"
proof (cases "find_one coll i")
  case None
  then have absent: "i \<notin> set (map doc_id coll)" by (simp add: find_one_None_iff)
  let ?coll1 = "coll @ [to_document i a]"
  have id: "doc_id (to_document i a) = i" by (simp add: to_document_def)
  from first None conn ida absent id
  have r1: "r1 = Some i" and h1: "h1 = h\<lparr>articles_collection := Some ?coll1\<rparr>"
    by (auto simp: insert_article_def insert_one_def)
  have f1: "find_one ?coll1 i = Some (to_document i a)"
    using absent id by (rule find_one_append_new)
  from second h1 idb f1 have r2: "r2 = Some i" and h2: "h2 = h1"
    by (auto simp: insert_article_def)
  have d1: "distinct (map doc_id ?coll1)" using uniq absent id by simp
  have "i \<in> set (map doc_id ?coll1)" using id by simp
  with d1 have c1: "length (filter (\<lambda>d. doc_id d = i) ?coll1) = 1"
    by (rule one_document_per_id)
  from r1 r2 h2 h1 d1 c1 f1 None show ?thesis by simp
next
  case (Some d)
  then have present: "i \<in> set (map doc_id coll)"
    using find_one_None_iff[of coll i] by auto
  from first Some conn ida have r1: "r1 = Some i" and h1: "h1 = h"
    by (auto simp: insert_article_def)
  from second h1 Some conn idb have r2: "r2 = Some i" and h2: "h2 = h1"
    by (auto simp: insert_article_def)
  from uniq present have "length (filter (\<lambda>d. doc_id d = i) coll) = 1"
    by (rule one_document_per_id)
  with r1 r2 h2 h1 conn uniq Some show ?thesis by simp
qed

theorem insert_article_twice_witness:
  "insert_article \<lparr>articles_collection = Some []\<rparr>
     \<lparr>data_id = Some ''P1'', data_title = Some ''First'', data_abstract = None,
      data_authors = None, data_publication_date = None, data_source = None\<rparr>
   = (Some ''P1'',
      \<lparr>articles_collection = Some
         [\<lparr>doc_id = ''P1'', doc_title = Some ''First'', doc_abstract = None,
           doc_authors = None, doc_publication_date = None, doc_source = None\<rparr>]\<rparr>)
   \<and> insert_article
       \<lparr>articles_collection = Some
         [\<lparr>doc_id = ''P1'', doc_title = Some ''First'', doc_abstract = None,
           doc_authors = None, doc_publication_date = None, doc_source = None\<rparr>]\<rparr>
       \<lparr>data_id = Some ''P1'', data_title = Some ''Second'', data_abstract = None,
        data_authors = None, data_publication_date = None, data_source = None\<rparr>
     = (Some ''P1'',
        \<lparr>articles_collection = Some
           [\<lparr>doc_id = ''P1'', doc_title = Some ''First'', doc_abstract = None,
             doc_authors = None, doc_publication_date = None, doc_source = None\<rparr>]\<rparr>)"
proof -
  let ?h = "\<lparr>articles_collection = Some []\<rparr>"
  let ?a = "\<lparr>data_id = Some ''P1'', data_title = Some ''First'', data_abstract = None,
      data_authors = None, data_publication_date = None, data_source = None\<rparr>"
  let ?b = "\<lparr>data_id = Some ''P1'', data_title = Some ''Second'', data_abstract = None,
        data_authors = None, data_publication_date = None, data_source = None\<rparr>"
  let ?h1 = "snd (insert_article ?h ?a)"
  have conn: "articles_collection ?h = Some []" by simp
  have uniq: "distinct (map doc_id [])" by simp
  have ida: "data_id ?a = Some ''P1''" by simp
  have idb: "data_id ?b = Some ''P1''" by simp
  have first: "insert_article ?h ?a = (fst (insert_article ?h ?a), ?h1)" by simp
  have second: "insert_article ?h1 ?b = (fst (insert_article ?h1 ?b), snd (insert_article ?h1 ?b))"
    by simp
  have h1: "?h1 = \<lparr>articles_collection = Some
         [\<lparr>doc_id = ''P1'', doc_title = Some ''First'', doc_abstract = None,
           doc_authors = None, doc_publication_date = None, doc_source = None\<rparr>]\<rparr>"
    by (simp add: insert_article_def find_one_def insert_one_def to_document_def)
  from insert_article_twice[OF conn uniq ida idb first second]
  have "fst (insert_article ?h ?a) = Some ''P1''"
    and "fst (insert_article ?h1 ?b) = Some ''P1''"
    and "snd (insert_article ?h1 ?b) = ?h1" by simp_all
  with h1 show ?thesis by (metis prod.collapse)
qed

section \<open>Properties of the co-authorship graph\<close>

text \<open>The links that a run collects do not depend on the nodes collected beside them.\<close>

lemma snd_add_article:
  "snd (add_article (ns, ls) d) = snd (add_article (ns', ls) d)"
  by (simp add: add_article_def Let_def)

lemma snd_foldl_add_article:
  "snd (foldl add_article (ns, ls) ds) = snd (foldl add_article (ns', ls) ds)"
proof (induction ds arbitrary: ns ns' ls)
  case Nil
  then show ?case by simp
next
  case (Cons d ds)
  obtain n1 l1 where a1: "add_article (ns, ls) d = (n1, l1)" by (cases "add_article (ns, ls) d")
  obtain n2 l2 where a2: "add_article (ns', ls) d = (n2, l2)" by (cases "add_article (ns', ls) d")
  from a1 a2 snd_add_article[of ns ls d ns'] have "l1 = l2" by simp
  with a1 a2 Cons.IH[of n1 l1 n2] show ?case by simp
qed

text \<open>
  Two author lists with the same names, in any order, sort to the same list, so an article
  adds the same entries to the same links whatever the order of its authors.
\<close>

lemma add_article_perm:
  assumes "mset au = mset au'"
  shows "snd (add_article acc (d\<lparr>doc_authors := Some au\<rparr>))
         = snd (add_article acc (d\<lparr>doc_authors := Some au'\<rparr>))"
proof -
  from assms have "sort au = sort au'" by (metis properties_for_sort sorted_sort mset_sort)
  moreover from assms have "length au = length au'" by (metis size_mset)
  ultimately show ?thesis by (simp add: add_article_def Let_def)
qed

lemma links_perm_store:
  assumes "mset au = mset au'"
  shows "link_list (get_author_network_data
            \<lparr>articles_collection = Some (pre @ [d\<lparr>doc_authors := Some au\<rparr>] @ post)\<rparr> flt)
       = link_list (get_author_network_data
            \<lparr>articles_collection = Some (pre @ [d\<lparr>doc_authors := Some au'\<rparr>] @ post)\<rparr> flt)"
proof -
  have step: "snd (foldl add_article acc (xs @ [d\<lparr>doc_authors := Some au\<rparr>] @ ys))
            = snd (foldl add_article acc (xs @ [d\<lparr>doc_authors := Some au'\<rparr>] @ ys))" for acc xs ys
  proof -
    let ?m = "foldl add_article acc xs"
    obtain n1 l1 where a1: "add_article ?m (d\<lparr>doc_authors := Some au\<rparr>) = (n1, l1)"
      by (cases "add_article ?m (d\<lparr>doc_authors := Some au\<rparr>)")
    obtain n2 l2 where a2: "add_article ?m (d\<lparr>doc_authors := Some au'\<rparr>) = (n2, l2)"
      by (cases "add_article ?m (d\<lparr>doc_authors := Some au'\<rparr>)")
    from a1 a2 add_article_perm[OF assms, of ?m d] have "l1 = l2" by simp
    with a1 a2 snd_foldl_add_article[of n1 l1 ys n2] show ?thesis by simp
  qed
  show ?thesis
  proof (cases "\<exists>ps. flt = Some ps \<and> ps \<noteq> []")
    case False
    then have "find_articles c flt = c" for c
      by (cases flt) (auto simp: find_articles_def)
    then show ?thesis using step[of "([], [])" pre post]
      by (simp add: get_author_network_data_def Let_def)
  next
    case True
    then obtain ps where ps: "flt = Some ps" "ps \<noteq> []" by auto
    show ?thesis
    proof (cases "doc_id d \<in> set ps")
      case True
      with ps step[of "([], [])" "filter (\<lambda>d. doc_id d \<in> set ps) pre" "filter (\<lambda>d. doc_id d \<in> set ps) post"]
      show ?thesis by (simp add: get_author_network_data_def Let_def find_articles_def)
    next
      case False
      with ps show ?thesis by (simp add: get_author_network_data_def Let_def find_articles_def)
    qed
  qed
qed

lemma sort3:
  assumes "a < b" "b < c" "mset au = {#a, b, c#}"
  shows "sort au = [a, b, (c::string)]"
proof -
  have "sorted [a, b, c]" using assms by auto
  moreover have "mset [a, b, c] = mset au" using assms by (simp add: add.commute add.left_commute)
  ultimately show ?thesis by (metis properties_for_sort)
qed

lemma three_links:
  assumes "b \<noteq> c" and "a \<noteq> b" and "a @ ''--'' @ b \<noteq> b @ ''--'' @ c"
  shows "foldl (add_link_article p t) [] [(a, b), (a, c), (b, c)]
       = [(a @ ''--'' @ b, \<lparr>link_source = a, link_target = b, link_articles = [\<lparr>ref_pmid = p, ref_title = t\<rparr>]\<rparr>),
          (a @ ''--'' @ c, \<lparr>link_source = a, link_target = c, link_articles = [\<lparr>ref_pmid = p, ref_title = t\<rparr>]\<rparr>),
          (b @ ''--'' @ c, \<lparr>link_source = b, link_target = c, link_articles = [\<lparr>ref_pmid = p, ref_title = t\<rparr>]\<rparr>)]"
  using assms by (simp add: add_link_article_def Let_def)


text \<open>
  When every article lists pairwise distinct names, every link joins two different names;
  and an article with fewer than two authors leaves the links as they are.
\<close>

lemma set_dict_set: "set (dict_set k v d) \<subseteq> insert (k, v) (set d)"
  by (induction d) auto

lemma combinations2_sorted_wrt:
  "sorted_wrt R xs \<Longrightarrow> (x, y) \<in> set (combinations2 xs) \<Longrightarrow> R x y"
  by (induction xs) auto

lemma proper_links_dict_set:
  assumes "proper_links ls" and "link_source l < link_target l"
  shows "proper_links (dict_set k l ls)"
  using assms set_dict_set[of k l ls] by (auto simp: proper_links_def list_all_iff)

lemma proper_links_add_link_article:
  assumes "proper_links ls" and "fst pair < snd pair"
  shows "proper_links (add_link_article p t ls pair)"
proof -
  define key where "key = fst pair @ ''--'' @ snd pair"
  define ls1 where "ls1 =
    (if map_of ls key = None
     then dict_set key \<lparr>link_source = fst pair, link_target = snd pair, link_articles = []\<rparr> ls
     else ls)"
  have unfold: "add_link_article p t ls pair =
    (case map_of ls1 key of
       None \<Rightarrow> ls1
     | Some l \<Rightarrow>
         dict_set key (l\<lparr>link_articles := link_articles l @ [\<lparr>ref_pmid = p, ref_title = t\<rparr>]\<rparr>) ls1)"
    unfolding add_link_article_def Let_def ls1_def key_def by (rule refl)
  have p1: "proper_links ls1" using assms by (simp add: ls1_def proper_links_dict_set)
  show ?thesis
  proof (cases "map_of ls1 key")
    case None
    with p1 unfold show ?thesis by simp
  next
    case (Some l)
    then have "(key, l) \<in> set ls1" by (rule map_of_SomeD)
    with p1 have "link_source l < link_target l" by (auto simp: proper_links_def list_all_iff)
    then have "proper_links (dict_set key
        (l\<lparr>link_articles := link_articles l @ [\<lparr>ref_pmid = p, ref_title = t\<rparr>]\<rparr>) ls1)"
      using p1 by (intro proper_links_dict_set) simp_all
    with Some unfold show ?thesis by simp
  qed
qed

lemma proper_links_foldl_pairs:
  assumes "proper_links ls" and "\<forall>pair \<in> set pairs. fst pair < snd pair"
  shows "proper_links (foldl (add_link_article p t) ls pairs)"
  using assms
proof (induction pairs arbitrary: ls)
  case Nil
  then show ?case by simp
next
  case (Cons pair pairs)
  then show ?case by (simp add: proper_links_add_link_article)
qed

lemma proper_links_add_article:
  assumes "proper_links (snd acc)"
    and "distinct (case doc_authors d of None \<Rightarrow> [] | Some au \<Rightarrow> au)"
  shows "proper_links (snd (add_article acc d))"
proof -
  let ?au = "case doc_authors d of None \<Rightarrow> [] | Some au \<Rightarrow> au"
  have "sorted_wrt (<) (sort ?au)"
    using assms(2) by (simp add: strict_sorted_iff)
  then have "\<forall>pair \<in> set (combinations2 (sort ?au)). fst pair < snd pair"
    using combinations2_sorted_wrt[of "(<)" "sort ?au"] by auto
  with assms(1) show ?thesis
    by (simp add: add_article_def Let_def proper_links_foldl_pairs)
qed

lemma proper_links_foldl_articles:
  assumes "proper_links (snd acc)"
    and "\<forall>d \<in> set ds. distinct (case doc_authors d of None \<Rightarrow> [] | Some au \<Rightarrow> au)"
  shows "proper_links (snd (foldl add_article acc ds))"
  using assms
proof (induction ds arbitrary: acc)
  case Nil
  then show ?case by simp
next
  case (Cons d ds)
  then show ?case by (simp add: proper_links_add_article)
qed

lemma no_self_link_when_names_distinct:
  assumes "\<forall>d \<in> set coll. distinct (case doc_authors d of None \<Rightarrow> [] | Some au \<Rightarrow> au)"
    and "l \<in> set (link_list (get_author_network_data \<lparr>articles_collection = Some coll\<rparr> flt))"
  shows "link_source l < link_target l"
proof -
  have sub: "set (find_articles coll flt) \<subseteq> set coll"
    by (auto simp: find_articles_def split: option.splits)
  have "proper_links (snd (foldl add_article ([], []) (find_articles coll flt)))"
    using assms(1) sub by (intro proper_links_foldl_articles) (auto simp: proper_links_def)
  with assms(2) show ?thesis
    by (auto simp: get_author_network_data_def Let_def proper_links_def list_all_iff)
qed

lemma few_authors_add_no_link:
  assumes "length (case doc_authors d of None \<Rightarrow> [] | Some au \<Rightarrow> au) < 2"
  shows "snd (add_article acc d) = snd acc"
  using assms by (simp add: add_article_def Let_def)

text \<open>
  C4. A stored article that lists the name \<open>Wang Y\<close> twice (two authors whose
  abbreviated names coincide) makes \<open>get_author_network_data\<close> return a link whose source
  and target are both \<open>Wang Y\<close>: \<open>combinations\<close> pairs the two positions of the sorted
  list, and nothing compares the two names.
\<close>

theorem self_link_on_repeated_name:
  "get_author_network_data
     \<lparr>articles_collection = Some
        [\<lparr>doc_id = ''P1'', doc_title = Some ''T'', doc_abstract = None,
          doc_authors = Some [''Wang Y'', ''Wang Y''], doc_publication_date = None,
          doc_source = None\<rparr>]\<rparr> None
   = \<lparr>node_list = [\<lparr>node_id = ''Wang Y'', node_name = ''Wang Y'', node_type = ''author''\<rparr>],
      link_list = [\<lparr>link_source = ''Wang Y'', link_target = ''Wang Y'',
                   link_articles = [\<lparr>ref_pmid = ''P1'', ref_title = ''T''\<rparr>]\<rparr>]\<rparr>"
  by code_simp

text \<open>
  C5. An article with the three distinct names \<open>-b\<close>, \<open>-b-\<close> and \<open>b-\<close> does not get
  the three links of its sorted pairs. The key \<open>f"{author1}--{author2}"\<close>, which the
  code's comment calls unique, is the same string \<open>-b---b-\<close> for the pairs \<open>(-b, -b-)\<close>
  and \<open>(-b-, b-)\<close>: the graph has two links instead of three, the first one lists the
  article twice, and no link joins \<open>-b-\<close> and \<open>b-\<close>.
\<close>

theorem link_key_collision:
  "''-b'' < ''-b-'' \<and> ''-b-'' < ''b-''
   \<and> link_list (get_author_network_data
        \<lparr>articles_collection = Some
           [\<lparr>doc_id = ''P1'', doc_title = Some ''T'', doc_abstract = None,
             doc_authors = Some [''b-'', ''-b'', ''-b-''], doc_publication_date = None,
             doc_source = None\<rparr>]\<rparr> None)
     = [\<lparr>link_source = ''-b'', link_target = ''-b-'',
         link_articles = [\<lparr>ref_pmid = ''P1'', ref_title = ''T''\<rparr>,
                          \<lparr>ref_pmid = ''P1'', ref_title = ''T''\<rparr>]\<rparr>,
        \<lparr>link_source = ''-b'', link_target = ''b-'',
         link_articles = [\<lparr>ref_pmid = ''P1'', ref_title = ''T''\<rparr>]\<rparr>]"
  by code_simp

text \<open>
  Apart from such a clash of keys the builder does what C5 says. Let an article have three
  authors \<open>a < b < c\<close>, stored in any order, whose keys \<open>a--b\<close> and \<open>b--c\<close> differ. Stored
  alone, it yields exactly the three links \<open>(a, b)\<close>, \<open>(a, c)\<close>, \<open>(b, c)\<close>, in this order,
  each listing the one entry made of the article's identifier and title. And in any
  collection, under any filter, reordering the authors of an article leaves the list of
  links unchanged.
\<close>

lemma coauthor_links_of_three_authors:
  assumes "a < b" and "b < c"
    and "mset authors = {#a, b, c#}"
    and "a @ ''--'' @ b \<noteq> b @ ''--'' @ c"
    and "doc_authors d = Some authors"
    and "entry = \<lparr>ref_pmid = doc_id d,
                  ref_title = (case doc_title d of None \<Rightarrow> ''No Title'' | Some t \<Rightarrow> t)\<rparr>"
    and "mset authors' = mset authors"
  shows "link_list (get_author_network_data \<lparr>articles_collection = Some [d]\<rparr> None)
         = [\<lparr>link_source = a, link_target = b, link_articles = [entry]\<rparr>,
            \<lparr>link_source = a, link_target = c, link_articles = [entry]\<rparr>,
            \<lparr>link_source = b, link_target = c, link_articles = [entry]\<rparr>]
       \<and> link_list (get_author_network_data
             \<lparr>articles_collection = Some (pre @ [d\<lparr>doc_authors := Some authors'\<rparr>] @ post)\<rparr> flt)
         = link_list (get_author_network_data
             \<lparr>articles_collection = Some (pre @ [d] @ post)\<rparr> flt)"
proof -
  have len: "length authors = 3" using assms(3) by (metis size_mset size_add_mset size_empty numeral_3_eq_3)
  have srt: "sort authors = [a, b, c]" using assms(1,2,3) by (rule sort3)
  have "b \<noteq> c" "a \<noteq> b" using assms(1,2) by auto
  from three_links[OF this assms(4)] len srt assms(5,6)
  have one: "link_list (get_author_network_data \<lparr>articles_collection = Some [d]\<rparr> None)
         = [\<lparr>link_source = a, link_target = b, link_articles = [entry]\<rparr>,
            \<lparr>link_source = a, link_target = c, link_articles = [entry]\<rparr>,
            \<lparr>link_source = b, link_target = c, link_articles = [entry]\<rparr>]"
    by (simp add: get_author_network_data_def find_articles_def add_article_def Let_def)
  have "d\<lparr>doc_authors := Some authors\<rparr> = d" using assms(5) by simp
  with links_perm_store[OF assms(7), of pre d post flt] have two:
    "link_list (get_author_network_data
             \<lparr>articles_collection = Some (pre @ [d\<lparr>doc_authors := Some authors'\<rparr>] @ post)\<rparr> flt)
         = link_list (get_author_network_data
             \<lparr>articles_collection = Some (pre @ [d] @ post)\<rparr> flt)" by simp
  from one two show ?thesis by simp
qed

lemma coauthor_links_of_three_authors_example:
  "link_list (get_author_network_data
      \<lparr>articles_collection = Some
         [\<lparr>doc_id = ''P1'', doc_title = Some ''T'', doc_abstract = None,
           doc_authors = Some [''C'', ''A'', ''B''], doc_publication_date = None,
           doc_source = None\<rparr>]\<rparr> None)
   = [\<lparr>link_source = ''A'', link_target = ''B'',
       link_articles = [\<lparr>ref_pmid = ''P1'', ref_title = ''T''\<rparr>]\<rparr>,
      \<lparr>link_source = ''A'', link_target = ''C'',
       link_articles = [\<lparr>ref_pmid = ''P1'', ref_title = ''T''\<rparr>]\<rparr>,
      \<lparr>link_source = ''B'', link_target = ''C'',
       link_articles = [\<lparr>ref_pmid = ''P1'', ref_title = ''T''\<rparr>]\<rparr>]
   \<and> link_list (get_author_network_data
        \<lparr>articles_collection = Some
           [\<lparr>doc_id = ''P1'', doc_title = Some ''T'', doc_abstract = None,
             doc_authors = Some [''B'', ''C'', ''A''], doc_publication_date = None,
             doc_source = None\<rparr>]\<rparr> None)
     = link_list (get_author_network_data
        \<lparr>articles_collection = Some
           [\<lparr>doc_id = ''P1'', doc_title = Some ''T'', doc_abstract = None,
             doc_authors = Some [''C'', ''A'', ''B''], doc_publication_date = None,
             doc_source = None\<rparr>]\<rparr> None)"
proof -
  let ?d = "\<lparr>doc_id = ''P1'', doc_title = Some ''T'', doc_abstract = None,
           doc_authors = Some [''C'', ''A'', ''B''], doc_publication_date = None,
           doc_source = None\<rparr>"
  have 1: "''A'' < ''B''" and 2: "''B'' < ''C''" by code_simp+
  have 3: "mset [''C'', ''A'', ''B''] = {#''A'', ''B'', ''C''#}" by simp
  have 4: "''A'' @ ''--'' @ ''B'' \<noteq> ''B'' @ ''--'' @ ''C''" by simp
  have 5: "doc_authors ?d = Some [''C'', ''A'', ''B'']" by simp
  have 6: "\<lparr>ref_pmid = ''P1'', ref_title = ''T''\<rparr>
           = \<lparr>ref_pmid = doc_id ?d,
              ref_title = (case doc_title ?d of None \<Rightarrow> ''No Title'' | Some t \<Rightarrow> t)\<rparr>" by simp
  have 7: "mset [''B'', ''C'', ''A''] = mset [''C'', ''A'', ''B'']" by simp
  from coauthor_links_of_three_authors[OF 1 2 3 4 5 6 7, of "[]" "[]" None]
  show ?thesis by simp
qed

text \<open>
  Two articles that list the same two authors in opposite orders feed one link, which
  lists both articles.
\<close>

lemma same_pair_one_link:
  "link_list (get_author_network_data
      \<lparr>articles_collection = Some
         [\<lparr>doc_id = ''P1'', doc_title = Some ''T1'', doc_abstract = None,
           doc_authors = Some [''X'', ''Y''], doc_publication_date = None, doc_source = None\<rparr>,
          \<lparr>doc_id = ''P2'', doc_title = Some ''T2'', doc_abstract = None,
           doc_authors = Some [''Y'', ''X''], doc_publication_date = None, doc_source = None\<rparr>]\<rparr>
      None)
   = [\<lparr>link_source = ''X'', link_target = ''Y'',
       link_articles = [\<lparr>ref_pmid = ''P1'', ref_title = ''T1''\<rparr>,
                        \<lparr>ref_pmid = ''P2'', ref_title = ''T2''\<rparr>]\<rparr>]"
  by code_simp

text \<open>
  C10. \<open>get_author_network_data\<close> with the empty list as filter returns what it returns
  with no filter: the graph folded over every document of the collection (the empty graph
  only when the handler is not connected).
\<close>

theorem empty_filter_is_no_filter:
  "get_author_network_data h (Some []) = get_author_network_data h None
   \<and> get_author_network_data h (Some [])
     = (case articles_collection h of
          None \<Rightarrow> \<lparr>node_list = [], link_list = []\<rparr>
        | Some coll \<Rightarrow>
            \<lparr>node_list = map snd (fst (foldl add_article ([], []) coll)),
             link_list = map snd (snd (foldl add_article ([], []) coll))\<rparr>)"
  by (simp add: get_author_network_data_def find_articles_def Let_def split: option.splits)

text \<open>On a store with one article of two authors the empty filter gives the whole graph.\<close>

lemma empty_filter_example:
  "get_author_network_data
     \<lparr>articles_collection = Some
        [\<lparr>doc_id = ''P1'', doc_title = Some ''T1'', doc_abstract = None,
          doc_authors = Some [''X'', ''Y''], doc_publication_date = None, doc_source = None\<rparr>]\<rparr>
     (Some [])
   = \<lparr>node_list = [\<lparr>node_id = ''X'', node_name = ''X'', node_type = ''author''\<rparr>,
                   \<lparr>node_id = ''Y'', node_name = ''Y'', node_type = ''author''\<rparr>],
      link_list = [\<lparr>link_source = ''X'', link_target = ''Y'',
                   link_articles = [\<lparr>ref_pmid = ''P1'', ref_title = ''T1''\<rparr>]\<rparr>]\<rparr>"
  by code_simp

section \<open>Properties of the vector store\<close>

text \<open>
  C8. When the three lists do not all have the same length, \<open>add_chunks\<close> returns
  \<open>False\<close> and the handler is unchanged: the collection is as before and the count of
  calls to the embedding model has not moved.
\<close>

theorem add_chunks_rejects_unequal_lengths:
  assumes "\<not> (length texts = length metadatas \<and> length metadatas = length ids)"
  shows "add_chunks collection_add h texts metadatas ids = (False, h)"
proof (cases "collection h")
  case None
  then show ?thesis by (simp add: add_chunks_def)
next
  case (Some coll)
  show ?thesis
  proof (cases "model h")
    case None
    with Some show ?thesis by (simp add: add_chunks_def)
  next
    case (Some encode)
    with \<open>collection h = Some coll\<close> assms show ?thesis by (simp add: add_chunks_def)
  qed
qed

theorem add_chunks_rejects_unequal_lengths_witness:
  "add_chunks (\<lambda>coll rows. Some (coll @ rows))
     \<lparr>collection = Some [], model = Some (\<lambda>texts. Some (map length texts)), encode_calls = 0\<rparr>
     [''first chunk'', ''second chunk'']
     [\<lparr>meta_article_id = ''P1'', meta_chunk_index = 0, meta_source = ''abstract'',
       meta_title = ''T''\<rparr>]
     [''P1_chunk_0'', ''P1_chunk_1'']
   = (False,
      \<lparr>collection = Some [], model = Some (\<lambda>texts. Some (map length texts)), encode_calls = 0\<rparr>)"
proof -
  have "\<not> (length [''first chunk'', ''second chunk'']
            = length [\<lparr>meta_article_id = ''P1'', meta_chunk_index = 0, meta_source = ''abstract'',
                       meta_title = ''T''\<rparr>]
          \<and> length [\<lparr>meta_article_id = ''P1'', meta_chunk_index = 0, meta_source = ''abstract'',
                       meta_title = ''T''\<rparr>]
            = length [''P1_chunk_0'', ''P1_chunk_1''])" by simp
  then show ?thesis by (rule add_chunks_rejects_unequal_lengths)
qed

section \<open>Properties of the ingestion pipeline\<close>

text \<open>
  The inner loop appends the chunks, and for the positions \<open>j, j + 1, \<dots>\<close> the metadata
  and the identifiers built from them.
\<close>

lemma append_chunks_lists:
  "append_chunks pmid t j chunks st =
     st\<lparr>chunks_to_chroma_texts := chunks_to_chroma_texts st @ chunks,
        chunks_to_chroma_metadatas := chunks_to_chroma_metadatas st
          @ map (\<lambda>k. \<lparr>meta_article_id = pmid, meta_chunk_index = k, meta_source = ''abstract'',
                      meta_title = t\<rparr>) [j..<j + length chunks],
        chunks_to_chroma_ids := chunks_to_chroma_ids st
          @ map (\<lambda>k. pmid @ ''_chunk_'' @ str_nat k) [j..<j + length chunks]\<rparr>"
proof (induction chunks arbitrary: j st)
  case Nil
  then show ?case by simp
next
  case (Cons c chunks)
  have "[j..<j + length (c # chunks)] = j # [Suc j..<Suc j + length chunks]"
    by (simp add: upt_rec)
  with Cons.IH[of "Suc j"] show ?case by simp
qed

lemma append_chunks_lengths:
  "length (chunks_to_chroma_ids (append_chunks pmid t j chunks st))
     = length (chunks_to_chroma_ids st) + length chunks
   \<and> length (chunks_to_chroma_metadatas (append_chunks pmid t j chunks st))
     = length (chunks_to_chroma_metadatas st) + length chunks
   \<and> length (chunks_to_chroma_texts (append_chunks pmid t j chunks st))
     = length (chunks_to_chroma_texts st) + length chunks"
  by (induction chunks arbitrary: j st) auto

lemma process_record_aligned:
  "aligned st \<Longrightarrow> process_record parse_date st record = Inr st' \<Longrightarrow> aligned st'"
  by (auto simp: process_record_def Let_def aligned_def append_chunks_lengths
      split: option.splits if_splits sum.splits)

lemma process_records_aligned:
  "aligned st \<Longrightarrow> process_records parse_date st records = Inr st' \<Longrightarrow> aligned st'"
proof (induction records arbitrary: st)
  case Nil
  then show ?case by simp
next
  case (Cons r records)
  then show ?case by (auto split: sum.splits dest: process_record_aligned)
qed

text \<open>
  C6. For a record with identifier \<open>A\<close> whose abstract chunks into \<open>n\<close> chunks, the loop
  body appends to the three lists the chunks, the metadata with article identifier \<open>A\<close>
  and index \<open>0, \<dots>, n - 1\<close>, and the identifiers \<open>A_chunk_0\<close> to \<open>A_chunk_(n-1)\<close>, in
  this order; the lists were of equal length and stay so, hence the identifier at a
  position belongs to the metadata and the chunk at that position. Another record with
  the same identifier and abstract, in any run, appends the same identifiers.
\<close>

theorem chunk_ids_of_record:
  assumes "PMID record = Some A" and "A \<noteq> []"
    and "abstract = (case AB record of None \<Rightarrow> ''No Abstract Available'' | Some a \<Rightarrow> a)"
    and "chunk_text abstract 3 = Inr chunks" and "n = length chunks"
    and "aligned st"
    and "PMID record' = Some A" and "AB record' = AB record"
  shows "(\<exists>st1. process_record parse_date st record = Inr st1
            \<and> chunks_to_chroma_ids st1
                = chunks_to_chroma_ids st @ map (\<lambda>j. A @ ''_chunk_'' @ str_nat j) [0..<n]
            \<and> chunks_to_chroma_metadatas st1
                = chunks_to_chroma_metadatas st
                  @ map (\<lambda>j. \<lparr>meta_article_id = A, meta_chunk_index = j,
                               meta_source = ''abstract'',
                               meta_title = (case TI record of None \<Rightarrow> ''No Title Available''
                                             | Some t \<Rightarrow> t)\<rparr>) [0..<n]
            \<and> chunks_to_chroma_texts st1 = chunks_to_chroma_texts st @ chunks
            \<and> aligned st1)
       \<and> (\<exists>st2. process_record parse_date' st' record' = Inr st2
            \<and> chunks_to_chroma_ids st2
                = chunks_to_chroma_ids st' @ map (\<lambda>j. A @ ''_chunk_'' @ str_nat j) [0..<n])"
  using assms by (simp add: process_record_def Let_def append_chunks_lists aligned_def)

theorem chunk_ids_of_record_witness:
  "(\<exists>st1. process_record (\<lambda>raw. None)
        \<lparr>articles_to_mongo = [], chunks_to_chroma_texts = [],
         chunks_to_chroma_metadatas = [], chunks_to_chroma_ids = []\<rparr>
        \<lparr>PMID = Some ''A'', TI = Some ''T'',
         AB = Some ''S1. S2. S3. S4. S5. S6. S7. S8. S9. S10.'', AU = None, DP = None\<rparr>
      = Inr st1
      \<and> chunks_to_chroma_ids st1 = [''A_chunk_0'', ''A_chunk_1'', ''A_chunk_2'', ''A_chunk_3'']
      \<and> map meta_article_id (chunks_to_chroma_metadatas st1) = [''A'', ''A'', ''A'', ''A'']
      \<and> map meta_chunk_index (chunks_to_chroma_metadatas st1) = [0, 1, 2, 3]
      \<and> chunks_to_chroma_texts st1 = [''S1. S2. S3.'', ''S4. S5. S6.'', ''S7. S8. S9.'', ''S10.''])"
proof -
  let ?r = "\<lparr>PMID = Some ''A'', TI = Some ''T'',
         AB = Some ''S1. S2. S3. S4. S5. S6. S7. S8. S9. S10.'', AU = None, DP = None\<rparr>"
  let ?st = "\<lparr>articles_to_mongo = [], chunks_to_chroma_texts = [],
         chunks_to_chroma_metadatas = [], chunks_to_chroma_ids = []\<rparr>"
  have 1: "PMID ?r = Some ''A''" by simp
  have 2: "''A'' \<noteq> []" by simp
  have 3: "''S1. S2. S3. S4. S5. S6. S7. S8. S9. S10.''
           = (case AB ?r of None \<Rightarrow> ''No Abstract Available'' | Some a \<Rightarrow> a)" by simp
  have 4: "chunk_text ''S1. S2. S3. S4. S5. S6. S7. S8. S9. S10.'' 3
           = Inr [''S1. S2. S3.'', ''S4. S5. S6.'', ''S7. S8. S9.'', ''S10.'']" by code_simp
  have 5: "4 = length [''S1. S2. S3.'', ''S4. S5. S6.'', ''S7. S8. S9.'', ''S10.'']" by simp
  have 6: "aligned ?st" by (simp add: aligned_def)
  have 7: "AB ?r = AB ?r" by simp
  have s: "map str_nat [0, 1, 2, 3] = [''0'', ''1'', ''2'', ''3'']" by code_simp
  have u: "[0..<4] = [0, 1, 2, 3::nat]" by code_simp
  from chunk_ids_of_record[OF 1 2 3 4 5 6 1 7, of "\<lambda>raw. None" "\<lambda>raw. None" ?st] s u
  show ?thesis by auto
qed

text \<open>The loop over the records raises nothing: the chunk size is the constant 3.\<close>

lemma process_record_returns: "\<exists>st'. process_record parse_date st record = Inr st'"
proof -
  define abstract where
    "abstract = (case AB record of None \<Rightarrow> ''No Abstract Available'' | Some a \<Rightarrow> a)"
  obtain chunks where c: "chunk_text abstract 3 = Inr chunks"
    using chunk_text_returns[of 3 abstract] by auto
  show ?thesis
  proof (cases "PMID record")
    case None
    then show ?thesis by (simp add: process_record_def Let_def)
  next
    case (Some pmid)
    with c show ?thesis by (simp add: process_record_def Let_def abstract_def)
  qed
qed

lemma process_records_returns: "\<exists>st'. process_records parse_date st records = Inr st'"
proof (induction records arbitrary: st)
  case Nil
  then show ?case by simp
next
  case (Cons r records)
  from process_record_returns obtain st1 where "process_record parse_date st r = Inr st1"
    by blast
  with Cons.IH[of st1] show ?case by simp
qed

text \<open>
  C9, as the claim states it, fails on a run that reaches completion: one record is
  parsed, the article is inserted, its chunk is embedded and written, and the value
  returned is \<open>None\<close>, not a count.
\<close>

theorem completed_run_returns_none:
  "fetch_and_ingest (\<lambda>coll rows. Some (coll @ rows)) (\<lambda>raw. None)
     (Some ([''123''],
        [\<lparr>PMID = Some ''123'', TI = Some ''T'', AB = Some ''One. Two.'', AU = Some [''X'', ''Y''],
          DP = None\<rparr>]))
     \<lparr>articles_collection = Some []\<rparr>
     \<lparr>collection = Some [], model = Some (\<lambda>texts. Some (map length texts)), encode_calls = 0\<rparr>
   = (Inr None,
      \<lparr>articles_collection = Some
         [\<lparr>doc_id = ''123'', doc_title = Some ''T'', doc_abstract = Some ''One. Two.'',
           doc_authors = Some [''X'', ''Y''], doc_publication_date = None,
           doc_source = Some ''PubMed''\<rparr>]\<rparr>,
      \<lparr>collection = Some
         [\<lparr>row_id = ''123_chunk_0'', row_document = ''One. Two.'',
           row_metadata = \<lparr>meta_article_id = ''123'', meta_chunk_index = 0,
                            meta_source = ''abstract'', meta_title = ''T''\<rparr>,
           row_embedding = 9\<rparr>],
       model = Some (\<lambda>texts. Some (map length texts)), encode_calls = 1\<rparr>)"
proof -
  have c: "chunk_text ''One. Two.'' 3 = Inr [''One. Two.'']" by code_simp
  have s: "str_nat 0 = ''0''" by code_simp
  show ?thesis
    by (simp add: fetch_and_ingest_def process_record_def Let_def c s insert_article_def
        find_one_def insert_one_def to_document_def add_chunks_def generate_embeddings_def
        make_rows_def)
qed

text \<open>
  C9, amended. Every run of \<open>fetch_and_ingest\<close> that reaches completion (the source
  answered with at least one identifier and its records) returns \<open>None\<close> to its caller:
  no count of processed, ingested or skipped records is returned.
\<close>

theorem fetch_and_ingest_returns_none:
  assumes "source = Some (id_list, records)" and "id_list \<noteq> []"
  shows "fst (fetch_and_ingest collection_add parse_date source mongo chroma) = Inr None"
proof -
  from process_records_returns obtain st where
    "process_records parse_date
       \<lparr>articles_to_mongo = [], chunks_to_chroma_texts = [],
        chunks_to_chroma_metadatas = [], chunks_to_chroma_ids = []\<rparr> records = Inr st"
    by blast
  with assms show ?thesis by (simp add: fetch_and_ingest_def Let_def)
qed

theorem fetch_and_ingest_returns_none_witness:
  "fst (fetch_and_ingest (\<lambda>coll rows. Some (coll @ rows)) (\<lambda>raw. None)
     (Some ([''7'', ''8''],
        [\<lparr>PMID = None, TI = Some ''No identifier'', AB = None, AU = None, DP = None\<rparr>,
         \<lparr>PMID = Some ''8'', TI = Some ''T'', AB = Some ''One. Two. Three. Four.'',
          AU = Some [''X''], DP = Some ''2023''\<rparr>]))
     \<lparr>articles_collection = Some []\<rparr>
     \<lparr>collection = Some [], model = Some (\<lambda>texts. Some (map length texts)),
      encode_calls = 0\<rparr>)
   = Inr None"
proof -
  have "[''7'', ''8''] \<noteq> []" by simp
  then show ?thesis by (rule fetch_and_ingest_returns_none[OF refl])
qed

text \<open>
  A run in which the source raises is left with \<open>AttributeError\<close>, and neither store is
  written.
\<close>

lemma failed_source_raises:
  "fetch_and_ingest collection_add parse_date None mongo chroma
   = (Inl AttributeError, mongo, chroma)"
  by (simp add: fetch_and_ingest_def)

section \<open>Properties of the answer parsing\<close>

text \<open>
  Where the parsing step does fall back. A missing key, or a false value under it
  (\<open>None\<close>, an empty list or dictionary), is caught at each of the four keys, as long as
  the values above it are dictionaries and the first elements of \<open>candidates\<close> and
  \<open>parts\<close> are dictionaries.
\<close>

lemma fallback_when_response_false:
  "\<not> truthy llm_result \<Longrightarrow> generated_answer llm_result = Inr fallback_answer"
  by (simp add: generated_answer_def)

lemma fallback_without_candidates:
  assumes "map_of kvs ''candidates'' = None
           \<or> (\<exists>c. map_of kvs ''candidates'' = Some c \<and> \<not> truthy c)"
  shows "generated_answer (JObj kvs) = Inr fallback_answer"
  using assms by (auto simp: generated_answer_def)

lemma fallback_without_content:
  assumes "map_of kvs ''candidates'' = Some (JArr (JObj first_candidate # rest))"
    and "map_of first_candidate ''content'' = None
         \<or> (\<exists>c. map_of first_candidate ''content'' = Some c \<and> \<not> truthy c)"
  shows "generated_answer (JObj kvs) = Inr fallback_answer"
proof -
  from assms(1) have "kvs \<noteq> []" by auto
  with assms show ?thesis by (auto simp: generated_answer_def)
qed

lemma fallback_without_parts:
  assumes "map_of kvs ''candidates'' = Some (JArr (JObj first_candidate # rest))"
    and "map_of first_candidate ''content'' = Some (JObj content)"
    and "map_of content ''parts'' = None
         \<or> (\<exists>p. map_of content ''parts'' = Some p \<and> \<not> truthy p)"
  shows "generated_answer (JObj kvs) = Inr fallback_answer"
proof -
  from assms(1) have k: "kvs \<noteq> []" by auto
  show ?thesis
  proof (cases "content = []")
    case True
    with assms(1,2) k show ?thesis by (simp add: generated_answer_def)
  next
    case False
    with assms k show ?thesis by (auto simp: generated_answer_def)
  qed
qed

lemma fallback_without_text:
  assumes "map_of kvs ''candidates'' = Some (JArr (JObj first_candidate # rest))"
    and "map_of first_candidate ''content'' = Some (JObj content)"
    and "map_of content ''parts'' = Some (JArr (JObj part # rest'))"
    and "map_of part ''text'' = None"
  shows "generated_answer (JObj kvs) = Inr fallback_answer"
proof -
  from assms(1) have "kvs \<noteq> []" by auto
  moreover from assms(3) have "content \<noteq> []" by auto
  ultimately show ?thesis using assms by (simp add: generated_answer_def)
qed

lemma answer_when_text_present:
  assumes "map_of kvs ''candidates'' = Some (JArr (JObj first_candidate # rest))"
    and "map_of first_candidate ''content'' = Some (JObj content)"
    and "map_of content ''parts'' = Some (JArr (JObj part # rest'))"
    and "map_of part ''text'' = Some answer"
  shows "generated_answer (JObj kvs) = Inr answer"
proof -
  from assms(1) have "kvs \<noteq> []" by auto
  moreover from assms(3) have "content \<noteq> []" by auto
  ultimately show ?thesis using assms by (simp add: generated_answer_def)
qed

text \<open>
  C7. The response \<open>{"candidates": [null]}\<close> has no answer field, and the parsing step
  does not return the fallback string: \<open>first_candidate\<close> is \<open>None\<close>, which is not tested
  before \<open>first_candidate.get("content")\<close>, so \<open>AttributeError\<close> leaves the step. The
  same happens one level down for \<open>"parts": [null]\<close>, where \<open>parts[0].get\<close> raises. The
  values of \<open>llm_result\<close>, \<open>candidates\<close>, \<open>content\<close> and \<open>parts\<close> are tested; the first
  elements of the two lists are not.
\<close>

theorem null_candidate_raises:
  "generated_answer (JObj [(''candidates'', JArr [JNull])]) = Inl AttributeError
   \<and> generated_answer
       (JObj [(''candidates'',
               JArr [JObj [(''content'', JObj [(''parts'', JArr [JNull])])]])])
     = Inl AttributeError"
  by (simp add: generated_answer_def)

text \<open>
  For comparison, a candidate that carries no \<open>content\<close> (the shape of a blocked answer)
  gives the fallback string.
\<close>

lemma fallback_example:
  "generated_answer (JObj [(''candidates'', JArr [JObj [(''finishReason'', JStr ''SAFETY'')]])])
   = Inr (JStr ''Could not generate an answer.'')"
  by (simp add: generated_answer_def fallback_answer_def)

end
